theory Spec2Isabelle
  imports Main "HOL-Library.Multiset" "HOL-Library.Sublist"
begin

section \<open>The table read from the uploaded file\<close>

text \<open>
  The program is one Streamlit script, \<^verbatim>\<open>main.py\<close>. The part it runs when the user presses
  "Process File" (lines 44 to 175) is embedded here. The uploaded table is a pandas DataFrame:
  a list of column names and a list of rows. The model gives a row the eight columns the script
  reads; their cells are read only after the column check of line 53 has passed. Text columns
  hold strings, the cost column holds values of any type \<open>'c\<close> (the script only passes them
  through) and the date column holds raw cells of any type \<open>'d\<close> until line 57 replaces them.
  A text column with empty cells or numbers in it, on which \<^verbatim>\<open>+\<close> and \<^verbatim>\<open>in\<close> do not behave as on
  strings, is outside the model, and so are timestamps with a time zone.
\<close>

record ('d, 'c) row =
  Date :: 'd
  Channel :: string
  Media_Source :: string
  Campaign_Name :: string
  Campaign_Name_Short :: string
  Ad_Set :: string
  Ad_Name_Short :: string
  Cost_USD :: 'c

record ('d, 'c) frame =
  columns :: "string list"
  rows :: "('d, 'c) row list"

text \<open>
  A parsed date is a pandas \<^verbatim>\<open>Timestamp\<close>: a count of nanoseconds since the epoch
  (\<^verbatim>\<open>datetime64[ns]\<close>). A cell that \<^verbatim>\<open>pd.to_datetime(..., errors='coerce')\<close> cannot parse becomes
  \<^verbatim>\<open>NaT\<close>, here \<open>None\<close>. The cutoff comes from \<^verbatim>\<open>st.sidebar.date_input\<close>, a calendar date without
  time of day, here the number of the day since the epoch.
\<close>

type_synonym timestamp = int
type_synonym date = int

definition ns_per_day :: int where
  "ns_per_day = 86400000000000"

definition to_timestamp :: "date \<Rightarrow> timestamp" where
  \<comment> \<open>\<^verbatim>\<open>pd.to_datetime(report_end_date)\<close>: midnight at the start of that day\<close>
  "to_timestamp d = d * ns_per_day"

definition date_of :: "timestamp \<Rightarrow> date" where
  \<comment> \<open>the calendar day a timestamp falls on\<close>
  "date_of t = t div ns_per_day"

definition time_of_day :: "timestamp \<Rightarrow> int" where
  \<comment> \<open>nanoseconds since midnight\<close>
  "time_of_day t = t mod ns_per_day"

definition ts_le :: "timestamp option \<Rightarrow> timestamp \<Rightarrow> bool" where
  \<comment> \<open>\<^verbatim>\<open>df['Date'] <= ts\<close>, elementwise; a comparison with \<^verbatim>\<open>NaT\<close> is false\<close>
  "ts_le cell ts = (case cell of None \<Rightarrow> False | Some t \<Rightarrow> t \<le> ts)"

definition ts_gt :: "timestamp option \<Rightarrow> timestamp \<Rightarrow> bool" where
  \<comment> \<open>\<^verbatim>\<open>df['Date'] > ts\<close>, elementwise; a comparison with \<^verbatim>\<open>NaT\<close> is false\<close>
  "ts_gt cell ts = (case cell of None \<Rightarrow> False | Some t \<Rightarrow> t > ts)"

section \<open>Column check and date conversion (lines 51 to 62)\<close>

definition required_columns :: "string list" where
  "required_columns =
     [''Date'', ''Channel'', ''Media Source'', ''Campaign Name'', ''Campaign Name (Short)'',
      ''Ad Set'', ''Ad Name (Short)'', ''Cost (USD)'']"

definition has_required_columns :: "string list \<Rightarrow> bool" where
  \<comment> \<open>\<^verbatim>\<open>all(col in df.columns for col in required_columns)\<close>\<close>
  "has_required_columns cols = list_all (\<lambda>col. col \<in> set cols) required_columns"

fun join :: "string \<Rightarrow> string list \<Rightarrow> string" where
  "join sep [] = []"
| "join sep [x] = x"
| "join sep (x # y # ys) = x @ sep @ join sep (y # ys)"

definition schema_message :: string where
  \<comment> \<open>the f-string of line 54\<close>
  "schema_message =
     ''Uploaded file must contain the following columns: '' @ join '', '' required_columns"

definition set_Date :: "('d, 'c) row \<Rightarrow> 'e \<Rightarrow> ('e, 'c) row" where
  "set_Date r d =
     \<lparr>Date = d, Channel = Channel r, Media_Source = Media_Source r,
      Campaign_Name = Campaign_Name r, Campaign_Name_Short = Campaign_Name_Short r,
      Ad_Set = Ad_Set r, Ad_Name_Short = Ad_Name_Short r, Cost_USD = Cost_USD r\<rparr>"

definition convert_dates ::
  "('d list \<Rightarrow> timestamp option list) \<Rightarrow> ('d, 'c) row list \<Rightarrow> (timestamp option, 'c) row list" where
  \<comment> \<open>line 57: \<^verbatim>\<open>df['Date'] = pd.to_datetime(df['Date'], errors='coerce')\<close>. The library's parser
      works on the whole column (it may infer one format for all cells), so it is a parameter
      from columns to columns; pandas returns as many cells as it was given.\<close>
  "convert_dates to_datetime rs = map2 set_Date rs (to_datetime (map Date rs))"

definition isnull_any :: "(timestamp option, 'c) row list \<Rightarrow> bool" where
  \<comment> \<open>\<^verbatim>\<open>df['Date'].isnull().any()\<close>\<close>
  "isnull_any rs = (\<exists>r \<in> set rs. Date r = None)"

definition dropna :: "(timestamp option, 'c) row list \<Rightarrow> (timestamp option, 'c) row list" where
  \<comment> \<open>\<^verbatim>\<open>df.dropna(subset=['Date'])\<close>\<close>
  "dropna rs = filter (\<lambda>r. Date r \<noteq> None) rs"

definition date_warning :: string where
  "date_warning = ''Some dates could not be parsed and will be ignored.''"

section \<open>Partitions and novelty sets (lines 64 to 81)\<close>

definition before_df :: "date \<Rightarrow> (timestamp option, 'c) row list \<Rightarrow> (timestamp option, 'c) row list" where
  "before_df report_end_date df = filter (\<lambda>r. ts_le (Date r) (to_timestamp report_end_date)) df"

definition after_df :: "date \<Rightarrow> (timestamp option, 'c) row list \<Rightarrow> (timestamp option, 'c) row list" where
  "after_df report_end_date df = filter (\<lambda>r. ts_gt (Date r) (to_timestamp report_end_date)) df"

definition campaign_key :: "('d, 'c) row \<Rightarrow> string" where
  \<comment> \<open>\<^verbatim>\<open>x['Channel'] + "_" + x['Campaign Name (Short)']\<close>\<close>
  "campaign_key r = Channel r @ ''_'' @ Campaign_Name_Short r"

definition campaigns :: "('d, 'c) row list \<Rightarrow> string set" where
  "campaigns df = set (map campaign_key df)"

definition adsets :: "('d, 'c) row list \<Rightarrow> string set" where
  "adsets df = set (map Ad_Set df)"

definition ads :: "('d, 'c) row list \<Rightarrow> string set" where
  "ads df = set (map Ad_Name_Short df)"

definition new_campaigns :: "date \<Rightarrow> (timestamp option, 'c) row list \<Rightarrow> string set" where
  "new_campaigns c df = campaigns (after_df c df) - campaigns (before_df c df)"

definition new_adsets :: "date \<Rightarrow> (timestamp option, 'c) row list \<Rightarrow> string set" where
  "new_adsets c df = adsets (after_df c df) - adsets (before_df c df)"

definition new_ads :: "date \<Rightarrow> (timestamp option, 'c) row list \<Rightarrow> string set" where
  "new_ads c df = ads (after_df c df) - ads (before_df c df)"

section \<open>Annotation, filter and deduplication (lines 83 to 117)\<close>

text \<open>
  The rows of \<^verbatim>\<open>final_df\<close>, with the columns in the order of line 114 and under the names of
  lines 104 to 111.
\<close>

record 'c out_row =
  out_Media_Source :: string
  out_Channel :: string
  Campaign_Status :: string
  Campaign_Short :: string
  Ad_Set_Status :: string
  out_Ad_Set :: string
  Ad_Status :: string
  Ad :: string
  out_Cost_USD :: 'c

definition status :: "bool \<Rightarrow> string" where
  "status is_new = (if is_new then ''New'' else ''Existing'')"

definition annotate :: "string set \<Rightarrow> string set \<Rightarrow> string set \<Rightarrow> ('d, 'c) row \<Rightarrow> 'c out_row" where
  \<comment> \<open>lines 84 to 96: the six displayed columns and the three status columns of one row\<close>
  "annotate new_c new_s new_a x =
     \<lparr>out_Media_Source = Media_Source x,
      out_Channel = Channel x,
      Campaign_Status = status (Channel x @ ''_'' @ Campaign_Name_Short x \<in> new_c),
      Campaign_Short = Campaign_Name_Short x,
      Ad_Set_Status = status (Ad_Set x \<in> new_s),
      out_Ad_Set = Ad_Set x,
      Ad_Status = status (Ad_Name_Short x \<in> new_a),
      Ad = Ad_Name_Short x,
      out_Cost_USD = Cost_USD x\<rparr>"

definition any_new :: "'c out_row \<Rightarrow> bool" where
  \<comment> \<open>the row mask of lines 99 to 101\<close>
  "any_new o_row =
     (Campaign_Status o_row = ''New'' \<or> Ad_Set_Status o_row = ''New'' \<or> Ad_Status o_row = ''New'')"

definition combination :: "'c out_row \<Rightarrow> string \<times> string \<times> string \<times> string" where
  \<comment> \<open>\<^verbatim>\<open>subset=['Channel', 'Campaign (Short)', 'Ad Set', 'Ad']\<close>\<close>
  "combination o_row = (out_Channel o_row, Campaign_Short o_row, out_Ad_Set o_row, Ad o_row)"

fun drop_duplicates_from :: "'k list \<Rightarrow> ('a \<Rightarrow> 'k) \<Rightarrow> 'a list \<Rightarrow> 'a list" where
  \<comment> \<open>\<^verbatim>\<open>DataFrame.drop_duplicates(subset=...)\<close> with its default \<^verbatim>\<open>keep='first'\<close>: one pass in row
      order that drops a row whose key was seen before\<close>
  "drop_duplicates_from seen key [] = []"
| "drop_duplicates_from seen key (x # xs) =
     (if key x \<in> set seen then drop_duplicates_from seen key xs
      else x # drop_duplicates_from (key x # seen) key xs)"

definition drop_duplicates :: "('a \<Rightarrow> 'k) \<Rightarrow> 'a list \<Rightarrow> 'a list" where
  "drop_duplicates key xs = drop_duplicates_from [] key xs"

datatype exn = ValueError

definition display_df :: "date \<Rightarrow> (timestamp option, 'c) row list \<Rightarrow> exn + 'c out_row list" where
  \<comment> \<open>lines 84 to 96. \<^verbatim>\<open>DataFrame.apply(f, axis=1)\<close> on a frame without rows does not return a
      column but a copy of the frame, and assigning that six-column frame to the one column
      \<^verbatim>\<open>'Campaign Status'\<close> at line 87 raises \<^verbatim>\<open>ValueError\<close>, which the handler of line 174
      catches.\<close>
  "display_df c df =
     (if after_df c df = [] then Inl ValueError
      else Inr (map (annotate (new_campaigns c df) (new_adsets c df) (new_ads c df)) (after_df c df)))"

definition filtered_df :: "date \<Rightarrow> (timestamp option, 'c) row list \<Rightarrow> exn + 'c out_row list" where
  \<comment> \<open>lines 98 to 101: the rows with at least one status \<^verbatim>\<open>"New"\<close>\<close>
  "filtered_df c df =
     (case display_df c df of
        Inl e \<Rightarrow> Inl e
      | Inr shown \<Rightarrow> Inr (filter any_new shown))"

definition final_df :: "date \<Rightarrow> (timestamp option, 'c) row list \<Rightarrow> exn + 'c out_row list" where
  \<comment> \<open>lines 103 to 117: renaming and reordering the columns changes no cell; then the
      duplicates are dropped\<close>
  "final_df c df =
     (case filtered_df c df of
        Inl e \<Rightarrow> Inl e
      | Inr kept \<Rightarrow> Inr (drop_duplicates combination kept))"

section \<open>One press of "Process File" (lines 44 to 175)\<close>

text \<open>
  What the script shows is modelled as the list of the Streamlit calls it makes, in order:
  \<^verbatim>\<open>st.error\<close> with the message of line 54, \<^verbatim>\<open>st.warning\<close>, \<^verbatim>\<open>st.table\<close>, the
  \<^verbatim>\<open>st.download_button\<close> that carries the spreadsheet written from \<^verbatim>\<open>final_df\<close>, and the
  \<^verbatim>\<open>st.error\<close> of the handler of line 175 for an exception raised on the way.
\<close>

datatype 'c event =
  St_error string
| St_warning string
| St_table "'c out_row list"
| St_download "'c out_row list"
| St_error_exception exn

definition process_file ::
  "('d list \<Rightarrow> timestamp option list) \<Rightarrow> date \<Rightarrow> ('d, 'c) frame \<Rightarrow> 'c event list" where
  "process_file to_datetime report_end_date uploaded =
     (if \<not> has_required_columns (columns uploaded) then [St_error schema_message]
      else
        let df = convert_dates to_datetime (rows uploaded);
            warned = (if isnull_any df then [St_warning date_warning] else []);
            df = dropna df
        in warned @
           (case final_df report_end_date df of
              Inl e \<Rightarrow> [St_error_exception e]
            | Inr table \<Rightarrow> [St_table table, St_download table]))"

section \<open>Vocabulary of the properties\<close>

text \<open>
  The columns a table lacks, and the message that would name them: the wording of line 54 with
  the missing columns in place of the required ones. The script computes neither; they state
  what "an error that lists the missing column names" means.
\<close>

definition missing_columns :: "string list \<Rightarrow> string list" where
  "missing_columns cols = filter (\<lambda>col. col \<notin> set cols) required_columns"

definition message_naming_missing :: "string list \<Rightarrow> string" where
  "message_naming_missing cols =
     ''Uploaded file must contain the following columns: '' @ join '', '' (missing_columns cols)"

text \<open>Two tables that are the same except for the cells of the cost column.\<close>

definition same_except_cost_row :: "('d, 'c) row \<Rightarrow> ('d, 'e) row \<Rightarrow> bool" where
  "same_except_cost_row r s =
     (Date r = Date s \<and> Channel r = Channel s \<and> Media_Source r = Media_Source s \<and>
      Campaign_Name r = Campaign_Name s \<and> Campaign_Name_Short r = Campaign_Name_Short s \<and>
      Ad_Set r = Ad_Set s \<and> Ad_Name_Short r = Ad_Name_Short s)"

definition same_except_cost :: "('d, 'c) frame \<Rightarrow> ('d, 'e) frame \<Rightarrow> bool" where
  "same_except_cost a b =
     (columns a = columns b \<and> list_all2 same_except_cost_row (rows a) (rows b))"

text \<open>A row, an output row and a Streamlit call with the cost cells blanked.\<close>

definition without_cost :: "('d, 'c) row \<Rightarrow> ('d, unit) row" where
  "without_cost r =
     \<lparr>Date = Date r, Channel = Channel r, Media_Source = Media_Source r,
      Campaign_Name = Campaign_Name r, Campaign_Name_Short = Campaign_Name_Short r,
      Ad_Set = Ad_Set r, Ad_Name_Short = Ad_Name_Short r, Cost_USD = ()\<rparr>"

definition out_without_cost :: "'c out_row \<Rightarrow> unit out_row" where
  "out_without_cost o_row =
     \<lparr>out_Media_Source = out_Media_Source o_row, out_Channel = out_Channel o_row,
      Campaign_Status = Campaign_Status o_row, Campaign_Short = Campaign_Short o_row,
      Ad_Set_Status = Ad_Set_Status o_row, out_Ad_Set = out_Ad_Set o_row,
      Ad_Status = Ad_Status o_row, Ad = Ad o_row, out_Cost_USD = ()\<rparr>"

fun event_without_cost :: "'c event \<Rightarrow> unit event" where
  "event_without_cost (St_error m) = St_error m"
| "event_without_cost (St_warning m) = St_warning m"
| "event_without_cost (St_table t) = St_table (map out_without_cost t)"
| "event_without_cost (St_download t) = St_download (map out_without_cost t)"
| "event_without_cost (St_error_exception e) = St_error_exception e"

fun is_warning :: "'c event \<Rightarrow> bool" where
  "is_warning (St_warning m) = True"
| "is_warning ev = False"

fun shown_rows :: "'c event \<Rightarrow> 'c out_row list" where
  \<comment> \<open>the rows a call puts on the page or into the spreadsheet\<close>
  "shown_rows (St_table t) = t"
| "shown_rows (St_download t) = t"
| "shown_rows ev = []"

section \<open>A small dataset\<close>

text \<open>
  Six rows around the cutoff 2024-01-15, day 19737 since the epoch: one before it, one that
  cannot be parsed, and four after it, of which two share their combination and one has
  nothing new. The date column holds text; the parser of the example knows four spellings.
\<close>

definition ex_cutoff :: date where
  "ex_cutoff = 19737"

definition ex_parse :: "string \<Rightarrow> timestamp option" where
  "ex_parse s =
     (if s = ''2024-01-10'' then Some (to_timestamp 19732)
      else if s = ''2024-01-15'' then Some (to_timestamp 19737)
      else if s = ''2024-01-15 10:30'' then Some (to_timestamp 19737 + 37800000000000)
      else if s = ''2024-01-20'' then Some (to_timestamp 19742)
      else None)"

definition ex_to_datetime :: "string list \<Rightarrow> timestamp option list" where
  "ex_to_datetime col = map ex_parse col"

definition mk_row :: "'d \<Rightarrow> string \<Rightarrow> string \<Rightarrow> string \<Rightarrow> string \<Rightarrow> 'c \<Rightarrow> ('d, 'c) row" where
  "mk_row d channel campaign ad_set ad cost =
     \<lparr>Date = d, Channel = channel, Media_Source = ''Paid'', Campaign_Name = campaign,
      Campaign_Name_Short = campaign, Ad_Set = ad_set, Ad_Name_Short = ad, Cost_USD = cost\<rparr>"

definition ex_rows :: "(string, nat) row list" where
  "ex_rows =
     [mk_row ''2024-01-10'' ''Facebook'' ''SummerSale'' ''Retargeting'' ''VideoA'' 10,
      mk_row ''2024-01-20'' ''Facebook'' ''SummerSale'' ''NewAudience123'' ''VideoA'' 20,
      mk_row ''2024-01-20'' ''Facebook'' ''SummerSale'' ''NewAudience123'' ''VideoA'' 35,
      mk_row ''2024-01-20'' ''Facebook'' ''SummerSale'' ''Retargeting'' ''VideoA'' 5,
      mk_row ''not a date'' ''Google'' ''Brand'' ''Broad'' ''TextB'' 7,
      mk_row ''2024-01-20'' ''Google'' ''Launch'' ''Retargeting'' ''VideoA'' 9]"

definition ex_frame :: "(string, nat) frame" where
  "ex_frame = \<lparr>columns = required_columns, rows = ex_rows\<rparr>"

definition ex_df :: "(timestamp option, nat) row list" where
  \<comment> \<open>the example after lines 57 to 62\<close>
  "ex_df =
     [mk_row (Some (to_timestamp 19732)) ''Facebook'' ''SummerSale'' ''Retargeting'' ''VideoA'' 10,
      mk_row (Some (to_timestamp 19742)) ''Facebook'' ''SummerSale'' ''NewAudience123'' ''VideoA'' 20,
      mk_row (Some (to_timestamp 19742)) ''Facebook'' ''SummerSale'' ''NewAudience123'' ''VideoA'' 35,
      mk_row (Some (to_timestamp 19742)) ''Facebook'' ''SummerSale'' ''Retargeting'' ''VideoA'' 5,
      mk_row (Some (to_timestamp 19742)) ''Google'' ''Launch'' ''Retargeting'' ''VideoA'' 9]"

definition mk_out :: "string \<Rightarrow> string \<Rightarrow> string \<Rightarrow> string \<Rightarrow> string \<Rightarrow> string \<Rightarrow> string \<Rightarrow> 'c \<Rightarrow> 'c out_row" where
  "mk_out channel cs campaign ss ad_set as ad cost =
     \<lparr>out_Media_Source = ''Paid'', out_Channel = channel, Campaign_Status = cs,
      Campaign_Short = campaign, Ad_Set_Status = ss, out_Ad_Set = ad_set, Ad_Status = as,
      Ad = ad, out_Cost_USD = cost\<rparr>"

definition ex_shown :: "nat out_row list" where
  \<comment> \<open>the four rows after the cutoff, annotated\<close>
  "ex_shown =
     [mk_out ''Facebook'' ''Existing'' ''SummerSale'' ''New'' ''NewAudience123'' ''Existing'' ''VideoA'' 20,
      mk_out ''Facebook'' ''Existing'' ''SummerSale'' ''New'' ''NewAudience123'' ''Existing'' ''VideoA'' 35,
      mk_out ''Facebook'' ''Existing'' ''SummerSale'' ''Existing'' ''Retargeting'' ''Existing'' ''VideoA'' 5,
      mk_out ''Google'' ''New'' ''Launch'' ''Existing'' ''Retargeting'' ''Existing'' ''VideoA'' 9]"

definition ex_kept :: "nat out_row list" where
  "ex_kept =
     [mk_out ''Facebook'' ''Existing'' ''SummerSale'' ''New'' ''NewAudience123'' ''Existing'' ''VideoA'' 20,
      mk_out ''Facebook'' ''Existing'' ''SummerSale'' ''New'' ''NewAudience123'' ''Existing'' ''VideoA'' 35,
      mk_out ''Google'' ''New'' ''Launch'' ''Existing'' ''Retargeting'' ''Existing'' ''VideoA'' 9]"

definition ex_final :: "nat out_row list" where
  "ex_final =
     [mk_out ''Facebook'' ''Existing'' ''SummerSale'' ''New'' ''NewAudience123'' ''Existing'' ''VideoA'' 20,
      mk_out ''Google'' ''New'' ''Launch'' ''Existing'' ''Retargeting'' ''Existing'' ''VideoA'' 9]"

definition late_stamp :: timestamp where
  \<comment> \<open>half past ten in the morning of the cutoff day\<close>
  "late_stamp = to_timestamp 19737 + 37800000000000"

definition late_row :: "(timestamp option, nat) row" where
  "late_row = mk_row (Some late_stamp) ''Google'' ''Launch'' ''Broad'' ''TextB'' 3"

definition clean_frame :: "(string, nat) frame" where
  \<comment> \<open>the example without the row that cannot be parsed\<close>
  "clean_frame = \<lparr>columns = required_columns, rows = take 4 ex_rows @ drop 5 ex_rows\<rparr>"

definition recosted_frame :: "(string, nat) frame" where
  \<comment> \<open>the example with every cost changed\<close>
  "recosted_frame =
     \<lparr>columns = required_columns,
      rows = map (\<lambda>r. r\<lparr>Cost_USD := 3 * Cost_USD r + 1\<rparr>) ex_rows\<rparr>"

definition frame_without_date_column :: "(string, nat) frame" where
  "frame_without_date_column =
     \<lparr>columns = [''Channel'', ''Media Source'', ''Campaign Name'', ''Campaign Name (Short)'',
                 ''Ad Set'', ''Ad Name (Short)'', ''Cost (USD)''],
      rows = ex_rows\<rparr>"

definition frame_without_cost_column :: "(string, nat) frame" where
  \<comment> \<open>the example, bad date and all, in a table that lacks the cost column\<close>
  "frame_without_cost_column =
     \<lparr>columns = [''Date'', ''Channel'', ''Media Source'', ''Campaign Name'',
                 ''Campaign Name (Short)'', ''Ad Set'', ''Ad Name (Short)''],
      rows = ex_rows\<rparr>"

text \<open>
  A parser of the kind \<^verbatim>\<open>pd.to_datetime\<close> is on a column of text: it takes one format from the
  first cell and reads every cell in that format, and when the first cell has no format it
  reads each cell on its own. It knows the day 2024-01-10 in the spelling year-month-day and
  the day 2024-01-20 in the spelling month/day/year.
\<close>

definition parse_ymd :: "string \<Rightarrow> timestamp option" where
  "parse_ymd s = (if s = ''2024-01-10'' then Some (to_timestamp 19732) else None)"

definition parse_mdy :: "string \<Rightarrow> timestamp option" where
  "parse_mdy s = (if s = ''01/20/2024'' then Some (to_timestamp 19742) else None)"

definition parse_any :: "string \<Rightarrow> timestamp option" where
  "parse_any s = (case parse_ymd s of Some t \<Rightarrow> Some t | None \<Rightarrow> parse_mdy s)"

definition inferring_to_datetime :: "string list \<Rightarrow> timestamp option list" where
  "inferring_to_datetime col =
     (case col of
        [] \<Rightarrow> []
      | first # _ \<Rightarrow>
          if parse_ymd first \<noteq> None then map parse_ymd col
          else if parse_mdy first \<noteq> None then map parse_mdy col
          else map parse_any col)"

definition mixed_rows :: "(string, nat) row list" where
  \<comment> \<open>a row that cannot be parsed, then one row in each spelling\<close>
  "mixed_rows =
     [mk_row ''not a date'' ''Google'' ''Brand'' ''Broad'' ''TextB'' 7,
      mk_row ''2024-01-10'' ''Facebook'' ''SummerSale'' ''Retargeting'' ''VideoA'' 10,
      mk_row ''01/20/2024'' ''Google'' ''Launch'' ''Retargeting'' ''VideoA'' 9]"

section \<open>The sets of lines 69 to 81 with their order of iteration\<close>










section \<open>The example, evaluated\<close>

lemmas ex_defs = ex_df_def ex_shown_def ex_kept_def ex_final_def mk_row_def mk_out_def ex_cutoff_def
lemmas partition_defs = after_df_def before_df_def ts_gt_def ts_le_def to_timestamp_def ns_per_day_def
lemmas novelty_defs = new_campaigns_def new_adsets_def new_ads_def campaigns_def adsets_def ads_def
  campaign_key_def


lemma ex_after:
  "after_df ex_cutoff ex_df = tl ex_df"
  by (simp add: ex_defs partition_defs)

lemma ex_before:
  "before_df ex_cutoff ex_df = [hd ex_df]"
  by (simp add: ex_defs partition_defs)

lemma ex_display: "display_df ex_cutoff ex_df = Inr ex_shown"
  by (simp add: display_df_def annotate_def status_def ex_defs partition_defs novelty_defs)

lemma ex_filtered: "filtered_df ex_cutoff ex_df = Inr ex_kept"
  by (simp add: filtered_df_def ex_display) (simp add: ex_defs any_new_def)

lemma ex_final_df: "final_df ex_cutoff ex_df = Inr ex_final"
  by (simp add: final_df_def ex_filtered) (simp add: ex_defs drop_duplicates_def combination_def)


lemma ex_columns: "has_required_columns (columns ex_frame)"
  by (simp add: has_required_columns_def ex_frame_def required_columns_def)

lemma clean_columns: "has_required_columns (columns clean_frame)"
  by (simp add: has_required_columns_def clean_frame_def required_columns_def)

lemma clean_converted:
  "convert_dates ex_to_datetime (rows clean_frame) = ex_df"
  by (simp add: convert_dates_def ex_to_datetime_def clean_frame_def ex_rows_def ex_df_def mk_row_def
      set_Date_def ex_parse_def)

lemma ex_unparsed:
  "convert_dates ex_to_datetime (rows ex_frame) ! 4 \<in> set (convert_dates ex_to_datetime (rows ex_frame))
   \<and> Date (convert_dates ex_to_datetime (rows ex_frame) ! 4) = None"
  by (simp add: convert_dates_def ex_to_datetime_def ex_frame_def ex_rows_def mk_row_def
      set_Date_def ex_parse_def)

section \<open>Midnight and the calendar day\<close>

lemma scaled_le_iff:
  fixes q m c n :: int
  assumes n: "0 < n" and m0: "0 \<le> m" and m1: "m < n"
  shows "q * n + m \<le> c * n \<longleftrightarrow> q < c \<or> (q = c \<and> m = 0)"
proof
  assume le: "q * n + m \<le> c * n"
  have "q \<le> c"
  proof (rule ccontr)
    assume "\<not> q \<le> c"
    then have "c + 1 \<le> q" by simp
    then have "(c + 1) * n \<le> q * n" using n by (simp add: mult_right_mono)
    then have "c * n + n \<le> q * n" by (simp add: distrib_right)
    with le m0 n show False by simp
  qed
  moreover have "m = 0" if "q = c"
    using le m0 that by simp
  ultimately show "q < c \<or> (q = c \<and> m = 0)" by auto
next
  assume "q < c \<or> (q = c \<and> m = 0)"
  then show "q * n + m \<le> c * n"
  proof
    assume "q < c"
    then have "q + 1 \<le> c" by simp
    then have "(q + 1) * n \<le> c * n" using n by (simp add: mult_right_mono)
    then have "q * n + n \<le> c * n" by (simp add: distrib_right)
    with m1 show ?thesis by simp
  next
    assume "q = c \<and> m = 0"
    then show ?thesis by simp
  qed
qed

lemma midnight_le_iff:
  "t \<le> to_timestamp c \<longleftrightarrow> date_of t < c \<or> (date_of t = c \<and> time_of_day t = 0)"
proof -
  have n: "0 < ns_per_day" by (simp add: ns_per_day_def)
  have t: "t = (t div ns_per_day) * ns_per_day + t mod ns_per_day" by simp
  have "(t div ns_per_day) * ns_per_day + t mod ns_per_day \<le> c * ns_per_day
        \<longleftrightarrow> t div ns_per_day < c \<or> (t div ns_per_day = c \<and> t mod ns_per_day = 0)"
    using n by (intro scaled_le_iff) simp_all
  then show ?thesis
    unfolding to_timestamp_def date_of_def time_of_day_def by simp
qed

lemma mset_partition:
  "mset (before_df c df) + mset (after_df c df) = mset (dropna df)"
  by (induction df) (auto simp: before_df_def after_df_def dropna_def ts_le_def ts_gt_def split: option.splits)

section \<open>Dropping duplicates\<close>

text \<open>The pass is stated for any list of keys seen so far, which the recursion extends.\<close>

lemma ddf_keys_unseen:
  "x \<in> set (drop_duplicates_from seen key xs) \<Longrightarrow> key x \<notin> set seen"
proof (induction xs arbitrary: seen)
  case Nil
  then show ?case by simp
next
  case (Cons a xs)
  show ?case
  proof (cases "key a \<in> set seen")
    case True
    with Cons.prems Cons.IH [of seen] show ?thesis by simp
  next
    case False
    with Cons.prems Cons.IH [of "key a # seen"] show ?thesis by auto
  qed
qed

lemma ddf_subset:
  "set (drop_duplicates_from seen key xs) \<subseteq> set xs"
  by (induction xs arbitrary: seen) (auto split: if_splits)

lemma ddf_distinct:
  "distinct (map key (drop_duplicates_from seen key xs))"
  by (induction xs arbitrary: seen) (auto dest: ddf_keys_unseen)

lemma ddf_subseq:
  "subseq (drop_duplicates_from seen key xs) xs"
  by (induction xs arbitrary: seen) auto

lemma ddf_key_image:
  "key ` set (drop_duplicates_from seen key xs) = key ` set xs - set seen"
  by (induction xs arbitrary: seen) auto

lemma ddf_first:
  "x \<in> set (drop_duplicates_from seen key xs) \<Longrightarrow> find (\<lambda>y. key y = key x) xs = Some x"
proof (induction xs arbitrary: seen)
  case Nil
  then show ?case by simp
next
  case (Cons a xs)
  show ?case
  proof (cases "key a \<in> set seen")
    case True
    with Cons.prems have mem: "x \<in> set (drop_duplicates_from seen key xs)" by simp
    then have "key x \<notin> set seen" by (rule ddf_keys_unseen)
    with True have "key a \<noteq> key x" by auto
    with Cons.IH [OF mem] show ?thesis by simp
  next
    case False
    with Cons.prems have "x = a \<or> x \<in> set (drop_duplicates_from (key a # seen) key xs)"
      by simp
    then show ?thesis
    proof
      assume "x = a"
      then show ?thesis by simp
    next
      assume mem: "x \<in> set (drop_duplicates_from (key a # seen) key xs)"
      then have "key x \<notin> set (key a # seen)" by (rule ddf_keys_unseen)
      then have "key a \<noteq> key x" by auto
      with Cons.IH [OF mem] show ?thesis by simp
    qed
  qed
qed

lemma ddf_map:
  assumes "\<And>x. key2 (f x) = key1 x"
  shows "drop_duplicates_from seen key2 (map f xs) = map f (drop_duplicates_from seen key1 xs)"
  by (induction xs arbitrary: seen) (simp_all add: assms)

section \<open>What each stage returns\<close>

lemma display_df_Inr:
  "display_df c df = Inr shown \<Longrightarrow>
     shown = map (annotate (new_campaigns c df) (new_adsets c df) (new_ads c df)) (after_df c df)"
  by (simp add: display_df_def split: if_splits)

lemma filtered_df_Inr:
  "filtered_df c df = Inr kept \<Longrightarrow> \<exists>shown. display_df c df = Inr shown \<and> kept = filter any_new shown"
  by (auto simp: filtered_df_def split: sum.splits)

lemma final_df_Inr:
  "final_df c df = Inr table \<Longrightarrow>
     \<exists>kept. filtered_df c df = Inr kept \<and> table = drop_duplicates combination kept"
  by (auto simp: final_df_def split: sum.splits)

lemma final_df_subset:
  assumes "final_df c df = Inr table"
  shows "set table \<subseteq>
     {o_row \<in> annotate (new_campaigns c df) (new_adsets c df) (new_ads c df) ` set (after_df c df).
        any_new o_row}"
proof -
  from assms obtain kept where k: "filtered_df c df = Inr kept"
    and t: "table = drop_duplicates combination kept"
    by (auto dest: final_df_Inr)
  from k obtain shown where s: "display_df c df = Inr shown" and f: "kept = filter any_new shown"
    by (auto dest: filtered_df_Inr)
  have "set table \<subseteq> set kept"
    unfolding t drop_duplicates_def by (rule ddf_subset)
  with f display_df_Inr [OF s] show ?thesis by auto
qed

lemma process_file_shown_rows:
  assumes "ev \<in> set (process_file to_datetime c uploaded)"
  shows "shown_rows ev = [] \<or>
         final_df c (dropna (convert_dates to_datetime (rows uploaded))) = Inr (shown_rows ev)"
  using assms
  by (auto simp: process_file_def Let_def split: if_splits sum.splits)

lemma final_df_any_new:
  assumes "final_df c df = Inr table" and "o_row \<in> set table"
  shows "Campaign_Status o_row = ''New'' \<or> Ad_Set_Status o_row = ''New'' \<or> Ad_Status o_row = ''New''"
  using final_df_subset [OF assms(1)] assms(2) by (auto simp: any_new_def)

lemma process_file_any_new:
  assumes "ev \<in> set (process_file to_datetime c uploaded)" and "o_row \<in> set (shown_rows ev)"
  shows "Campaign_Status o_row = ''New'' \<or> Ad_Set_Status o_row = ''New'' \<or> Ad_Status o_row = ''New''"
proof -
  from assms(2) have "shown_rows ev \<noteq> []" by auto
  with process_file_shown_rows [OF assms(1)]
  have "final_df c (dropna (convert_dates to_datetime (rows uploaded))) = Inr (shown_rows ev)"
    by simp
  then show ?thesis using assms(2) by (rule final_df_any_new)
qed

lemma display_df_returns:
  "after_df c df \<noteq> [] \<Longrightarrow>
     display_df c df =
       Inr (map (annotate (new_campaigns c df) (new_adsets c df) (new_ads c df)) (after_df c df))"
  by (simp add: display_df_def)

lemma process_file_distinct:
  assumes "ev \<in> set (process_file to_datetime c uploaded)"
  shows "distinct (map combination (shown_rows ev))"
proof (cases "shown_rows ev = []")
  case True
  then show ?thesis by simp
next
  case False
  with process_file_shown_rows [OF assms]
  have "final_df c (dropna (convert_dates to_datetime (rows uploaded))) = Inr (shown_rows ev)"
    by simp
  then obtain kept where "shown_rows ev = drop_duplicates combination kept"
    by (auto dest: final_df_Inr)
  then show ?thesis by (simp add: drop_duplicates_def ddf_distinct)
qed

lemma partitions_skip_unparsed:
  "Date r = None \<Longrightarrow> r \<notin> set (before_df c df) \<and> r \<notin> set (after_df c df)"
  by (simp add: before_df_def after_df_def ts_le_def ts_gt_def)

lemma after_df_parsed:
  "r \<in> set (after_df c df) \<Longrightarrow> r \<in> set df \<and> Date r \<noteq> None"
  by (auto simp: after_df_def ts_gt_def split: option.splits)

lemma process_file_warnings:
  "has_required_columns (columns uploaded) \<Longrightarrow>
     filter is_warning (process_file to_datetime c uploaded) =
       (if isnull_any (convert_dates to_datetime (rows uploaded)) then [St_warning date_warning] else [])"
  by (simp add: process_file_def Let_def split: sum.splits)

lemma process_file_rows_parsed:
  assumes "ev \<in> set (process_file to_datetime c uploaded)" and "o_row \<in> set (shown_rows ev)"
  shows "\<exists>r \<in> set (convert_dates to_datetime (rows uploaded)). Date r \<noteq> None \<and>
           o_row = annotate (new_campaigns c (dropna (convert_dates to_datetime (rows uploaded))))
                     (new_adsets c (dropna (convert_dates to_datetime (rows uploaded))))
                     (new_ads c (dropna (convert_dates to_datetime (rows uploaded)))) r"
proof -
  define df where "df = dropna (convert_dates to_datetime (rows uploaded))"
  from assms(2) have "shown_rows ev \<noteq> []" by auto
  with process_file_shown_rows [OF assms(1)]
  have "final_df c df = Inr (shown_rows ev)" by (simp add: df_def)
  from final_df_subset [OF this] assms(2)
  obtain r where r: "r \<in> set (after_df c df)"
    and o: "o_row = annotate (new_campaigns c df) (new_adsets c df) (new_ads c df) r"
    by auto
  from after_df_parsed [OF r] have "r \<in> set (convert_dates to_datetime (rows uploaded))"
    and "Date r \<noteq> None"
    by (simp_all add: df_def dropna_def)
  with o show ?thesis unfolding df_def by blast
qed

lemma annotate_same_keys:
  assumes "Channel r = Channel s" and "Campaign_Name_Short r = Campaign_Name_Short s"
    and "Ad_Set r = Ad_Set s" and "Ad_Name_Short r = Ad_Name_Short s"
  shows "Campaign_Status (annotate nc ns na r) = Campaign_Status (annotate nc ns na s)
       \<and> Ad_Set_Status (annotate nc ns na r) = Ad_Set_Status (annotate nc ns na s)
       \<and> Ad_Status (annotate nc ns na r) = Ad_Status (annotate nc ns na s)"
  using assms by (simp add: annotate_def)

lemma combination_annotate:
  "combination (annotate nc ns na r) = (Channel r, Campaign_Name_Short r, Ad_Set r, Ad_Name_Short r)"
  by (simp add: combination_def annotate_def)

section \<open>Blanking the cost column commutes with every stage\<close>

lemma without_cost_sel [simp]:
  "Date (without_cost r) = Date r"
  "Channel (without_cost r) = Channel r"
  "Media_Source (without_cost r) = Media_Source r"
  "Campaign_Name (without_cost r) = Campaign_Name r"
  "Campaign_Name_Short (without_cost r) = Campaign_Name_Short r"
  "Ad_Set (without_cost r) = Ad_Set r"
  "Ad_Name_Short (without_cost r) = Ad_Name_Short r"
  by (simp_all add: without_cost_def)

lemma same_except_cost_rows:
  "list_all2 same_except_cost_row xs ys \<Longrightarrow> map without_cost xs = map without_cost ys"
  by (induction rule: list_all2_induct) (simp_all add: same_except_cost_row_def without_cost_def)

lemma set_Date_without_cost:
  "set_Date (without_cost r) d = without_cost (set_Date r d)"
  by (simp add: set_Date_def without_cost_def)

lemma convert_dates_without_cost:
  "convert_dates to_datetime (map without_cost rs) = map without_cost (convert_dates to_datetime rs)"
  by (simp add: convert_dates_def zip_map1 o_def split_def set_Date_without_cost)

lemma isnull_any_without_cost:
  "isnull_any (map without_cost df) = isnull_any df"
  by (simp add: isnull_any_def)

lemma dropna_without_cost:
  "dropna (map without_cost df) = map without_cost (dropna df)"
  by (simp add: dropna_def filter_map o_def)

lemma before_df_without_cost:
  "before_df c (map without_cost df) = map without_cost (before_df c df)"
  by (simp add: before_df_def filter_map o_def)

lemma after_df_without_cost:
  "after_df c (map without_cost df) = map without_cost (after_df c df)"
  by (simp add: after_df_def filter_map o_def)

lemma keys_without_cost:
  "campaigns (map without_cost df) = campaigns df"
  "adsets (map without_cost df) = adsets df"
  "ads (map without_cost df) = ads df"
  by (simp_all add: campaigns_def adsets_def ads_def campaign_key_def o_def)

lemma novelty_without_cost:
  "new_campaigns c (map without_cost df) = new_campaigns c df"
  "new_adsets c (map without_cost df) = new_adsets c df"
  "new_ads c (map without_cost df) = new_ads c df"
  by (simp_all add: new_campaigns_def new_adsets_def new_ads_def before_df_without_cost
      after_df_without_cost keys_without_cost)

lemma annotate_without_cost:
  "annotate nc ns na (without_cost r) = out_without_cost (annotate nc ns na r)"
  by (simp add: annotate_def out_without_cost_def)

lemma any_new_without_cost:
  "any_new (out_without_cost o_row) = any_new o_row"
  by (simp add: any_new_def out_without_cost_def)

lemma combination_without_cost:
  "combination (out_without_cost o_row) = combination o_row"
  by (simp add: combination_def out_without_cost_def)

lemma display_df_without_cost:
  "display_df c (map without_cost df) = map_sum id (map out_without_cost) (display_df c df)"
  by (simp add: display_df_def after_df_without_cost novelty_without_cost o_def
      annotate_without_cost)

lemma filtered_df_without_cost:
  "filtered_df c (map without_cost df) = map_sum id (map out_without_cost) (filtered_df c df)"
  by (cases "display_df c df")
    (simp_all add: filtered_df_def display_df_without_cost filter_map o_def any_new_without_cost)

lemma final_df_without_cost:
  "final_df c (map without_cost df) = map_sum id (map out_without_cost) (final_df c df)"
  by (cases "filtered_df c df")
    (simp_all add: final_df_def filtered_df_without_cost drop_duplicates_def
      ddf_map [where ?key1.0 = combination] combination_without_cost)

lemma process_file_without_cost:
  "process_file to_datetime c \<lparr>columns = columns uploaded, rows = map without_cost (rows uploaded)\<rparr>
     = map event_without_cost (process_file to_datetime c uploaded)"
  by (cases "final_df c (dropna (convert_dates to_datetime (rows uploaded)))")
    (simp_all add: process_file_def Let_def convert_dates_without_cost isnull_any_without_cost
      dropna_without_cost final_df_without_cost)

lemma convert_dates_without_row:
  assumes "length ds1 = length xs"
    and "to_datetime (map Date (xs @ r # ys)) = ds1 @ None # ds2"
    and "to_datetime (map Date (xs @ ys)) = ds1 @ ds2"
  shows "dropna (convert_dates to_datetime (xs @ r # ys)) = dropna (convert_dates to_datetime (xs @ ys))"
proof -
  have a: "convert_dates to_datetime (xs @ r # ys) =
      map2 set_Date xs ds1 @ set_Date r None # map2 set_Date ys ds2"
    unfolding convert_dates_def assms(2) using assms(1) by simp
  have b: "convert_dates to_datetime (xs @ ys) = map2 set_Date xs ds1 @ map2 set_Date ys ds2"
    unfolding convert_dates_def assms(3) using assms(1) by simp
  have "Date (set_Date r (None :: timestamp option)) = None"
    by (simp add: set_Date_def)
  then show ?thesis
    unfolding a b by (simp add: dropna_def)
qed

lemma process_file_results:
  "has_required_columns (columns uploaded) \<Longrightarrow>
     filter (\<lambda>ev. \<not> is_warning ev) (process_file to_datetime c uploaded) =
       (case final_df c (dropna (convert_dates to_datetime (rows uploaded))) of
          Inl e \<Rightarrow> [St_error_exception e]
        | Inr table \<Rightarrow> [St_table table, St_download table])"
  by (simp add: process_file_def Let_def split: sum.splits)

section \<open>The order of a set does not show\<close>







section \<open>Novelty sets\<close>

text \<open>
  C1. For each of the three key types the set of new keys is the set of keys of the rows after
  the cutoff minus the set of keys of the rows up to the cutoff: a key is new exactly when some
  row of \<^verbatim>\<open>after_df\<close> has it and no row of \<^verbatim>\<open>before_df\<close> has it. So the new keys are among
  the recent keys and none of them is a historical key.
\<close>

theorem novelty_sets_are_differences:
  "(k \<in> new_campaigns c df \<longleftrightarrow>
      (\<exists>r \<in> set (after_df c df). campaign_key r = k) \<and> \<not> (\<exists>r \<in> set (before_df c df). campaign_key r = k))
   \<and> (k \<in> new_adsets c df \<longleftrightarrow>
      (\<exists>r \<in> set (after_df c df). Ad_Set r = k) \<and> \<not> (\<exists>r \<in> set (before_df c df). Ad_Set r = k))
   \<and> (k \<in> new_ads c df \<longleftrightarrow>
      (\<exists>r \<in> set (after_df c df). Ad_Name_Short r = k) \<and> \<not> (\<exists>r \<in> set (before_df c df). Ad_Name_Short r = k))
   \<and> new_campaigns c df = campaigns (after_df c df) - campaigns (before_df c df)
   \<and> new_adsets c df = adsets (after_df c df) - adsets (before_df c df)
   \<and> new_ads c df = ads (after_df c df) - ads (before_df c df)
   \<and> new_campaigns c df \<subseteq> campaigns (after_df c df)
   \<and> new_adsets c df \<subseteq> adsets (after_df c df)
   \<and> new_ads c df \<subseteq> ads (after_df c df)
   \<and> new_campaigns c df \<inter> campaigns (before_df c df) = {}
   \<and> new_adsets c df \<inter> adsets (before_df c df) = {}
   \<and> new_ads c df \<inter> ads (before_df c df) = {}"
  unfolding new_campaigns_def new_adsets_def new_ads_def campaigns_def adsets_def ads_def
  by (intro conjI) (auto simp: image_iff)

theorem novelty_sets_are_differences_witness:
  "''Google_Launch'' \<in> new_campaigns ex_cutoff ex_df
   \<and> ''Facebook_SummerSale'' \<notin> new_campaigns ex_cutoff ex_df"
proof -
  have a1: "\<exists>r \<in> set (after_df ex_cutoff ex_df). campaign_key r = ''Google_Launch''"
    unfolding ex_after by (simp add: ex_df_def mk_row_def campaign_key_def)
  have b1: "\<not> (\<exists>r \<in> set (before_df ex_cutoff ex_df). campaign_key r = ''Google_Launch'')"
    unfolding ex_before by (simp add: ex_df_def mk_row_def campaign_key_def)
  have b2: "\<exists>r \<in> set (before_df ex_cutoff ex_df). campaign_key r = ''Facebook_SummerSale''"
    unfolding ex_before by (simp add: ex_df_def mk_row_def campaign_key_def)
  from a1 b1 novelty_sets_are_differences [of "''Google_Launch''" ex_cutoff ex_df, THEN conjunct1]
  have "''Google_Launch'' \<in> new_campaigns ex_cutoff ex_df" by simp
  moreover
  from b2 novelty_sets_are_differences [of "''Facebook_SummerSale''" ex_cutoff ex_df, THEN conjunct1]
  have "''Facebook_SummerSale'' \<notin> new_campaigns ex_cutoff ex_df" by simp
  ultimately show ?thesis by simp
qed

section \<open>The filter\<close>

text \<open>
  C2. Every row of the table that is shown and exported has at least one of its three statuses
  equal to \<^verbatim>\<open>"New"\<close>, and a row of \<^verbatim>\<open>after_df\<close> whose three statuses are all \<^verbatim>\<open>"Existing"\<close> is not in
  \<^verbatim>\<open>final_df\<close>.
\<close>

theorem output_rows_have_a_new_status:
  "(\<forall>ev \<in> set (process_file to_datetime c uploaded). \<forall>o_row \<in> set (shown_rows ev).
      Campaign_Status o_row = ''New'' \<or> Ad_Set_Status o_row = ''New'' \<or> Ad_Status o_row = ''New'')
   \<and> (\<forall>table. final_df c df = Inr table \<longrightarrow>
        (\<forall>o_row \<in> set table.
           Campaign_Status o_row = ''New'' \<or> Ad_Set_Status o_row = ''New'' \<or> Ad_Status o_row = ''New'')
        \<and> (\<forall>r \<in> set (after_df c df). \<forall>o_row.
             o_row = annotate (new_campaigns c df) (new_adsets c df) (new_ads c df) r \<longrightarrow>
             Campaign_Status o_row = ''Existing'' \<and> Ad_Set_Status o_row = ''Existing'' \<and>
             Ad_Status o_row = ''Existing'' \<longrightarrow> o_row \<notin> set table))"
proof (intro conjI ballI allI impI)
  fix ev o_row
  assume "ev \<in> set (process_file to_datetime c uploaded)" and "o_row \<in> set (shown_rows ev)"
  then show "Campaign_Status o_row = ''New'' \<or> Ad_Set_Status o_row = ''New'' \<or> Ad_Status o_row = ''New''"
    by (rule process_file_any_new)
next
  fix table o_row
  assume "final_df c df = Inr table" and "o_row \<in> set table"
  then show "Campaign_Status o_row = ''New'' \<or> Ad_Set_Status o_row = ''New'' \<or> Ad_Status o_row = ''New''"
    by (rule final_df_any_new)
next
  fix table r o_row
  assume t: "final_df c df = Inr table" and "r \<in> set (after_df c df)"
    and "o_row = annotate (new_campaigns c df) (new_adsets c df) (new_ads c df) r"
    and e: "Campaign_Status o_row = ''Existing'' \<and> Ad_Set_Status o_row = ''Existing'' \<and>
             Ad_Status o_row = ''Existing''"
  show "o_row \<notin> set table"
  proof
    assume "o_row \<in> set table"
    from final_df_any_new [OF t this] e show False by simp
  qed
qed

theorem output_rows_have_a_new_status_witness:
  "final_df ex_cutoff ex_df = Inr ex_final
   \<and> Ad_Set_Status (ex_final ! 0) = ''New'' \<and> Campaign_Status (ex_final ! 1) = ''New''
   \<and> ex_df ! 3 \<in> set (after_df ex_cutoff ex_df)
   \<and> annotate (new_campaigns ex_cutoff ex_df) (new_adsets ex_cutoff ex_df) (new_ads ex_cutoff ex_df)
        (ex_df ! 3) = ex_shown ! 2
   \<and> ex_shown ! 2 \<notin> set ex_final"
proof -
  have mem: "ex_df ! 3 \<in> set (after_df ex_cutoff ex_df)"
    unfolding ex_after by (simp add: ex_df_def)
  have ann: "annotate (new_campaigns ex_cutoff ex_df) (new_adsets ex_cutoff ex_df)
      (new_ads ex_cutoff ex_df) (ex_df ! 3) = ex_shown ! 2"
    using display_df_Inr [OF ex_display] unfolding ex_after
    by (simp add: ex_df_def ex_shown_def)
  have ex: "Campaign_Status (ex_shown ! 2) = ''Existing'' \<and> Ad_Set_Status (ex_shown ! 2) = ''Existing''
      \<and> Ad_Status (ex_shown ! 2) = ''Existing''"
    by (simp add: ex_shown_def mk_out_def)
  have "ex_shown ! 2 \<notin> set ex_final"
    using output_rows_have_a_new_status [of ex_to_datetime ex_cutoff ex_frame ex_df, THEN conjunct2,
        rule_format, OF ex_final_df, THEN conjunct2, rule_format, OF mem, of "ex_shown ! 2"]
      ann ex by simp
  moreover have "Ad_Set_Status (ex_final ! 0) = ''New'' \<and> Campaign_Status (ex_final ! 1) = ''New''"
    by (simp add: ex_final_def mk_out_def)
  ultimately show ?thesis using ex_final_df mem ann by simp
qed

section \<open>The two partitions\<close>

text \<open>
  C3, as the claim states it, fails: the comparison of lines 65 and 66 is between timestamps,
  and the cutoff is the midnight that starts its day. A row dated half past ten on the cutoff
  day has the cutoff's date and is in \<^verbatim>\<open>after_df\<close>, not in \<^verbatim>\<open>before_df\<close>.
\<close>

theorem same_day_row_is_recent:
  "Date late_row = Some late_stamp \<and> date_of late_stamp = ex_cutoff
   \<and> late_row \<in> set (after_df ex_cutoff [late_row])
   \<and> late_row \<notin> set (before_df ex_cutoff [late_row])"
  by (simp add: late_row_def late_stamp_def mk_row_def date_of_def ex_cutoff_def partition_defs)

text \<open>
  C3, amended. A row whose date was parsed is in exactly one partition: in \<^verbatim>\<open>before_df\<close> when its
  timestamp is at most the midnight that starts the cutoff day, in \<^verbatim>\<open>after_df\<close> when it is later.
  In terms of days: a row of an earlier day, or of the cutoff day at midnight exactly, is
  historical; a row of a later day, or of the cutoff day with a time of day after midnight, is
  recent. The two partitions together hold the rows with a parsed date, each as often as the
  table does.
\<close>

theorem partition_by_timestamp:
  assumes "r \<in> set df" and "Date r = Some t"
  shows "(r \<in> set (before_df c df) \<longleftrightarrow> t \<le> to_timestamp c)
       \<and> (r \<in> set (after_df c df) \<longleftrightarrow> to_timestamp c < t)
       \<and> (r \<in> set (before_df c df) \<longleftrightarrow> r \<notin> set (after_df c df))
       \<and> (r \<in> set (before_df c df) \<longleftrightarrow> date_of t < c \<or> (date_of t = c \<and> time_of_day t = 0))
       \<and> (r \<in> set (after_df c df) \<longleftrightarrow> c < date_of t \<or> (date_of t = c \<and> 0 < time_of_day t))
       \<and> mset (before_df c df) + mset (after_df c df) = mset (dropna df)"
proof -
  have b: "r \<in> set (before_df c df) \<longleftrightarrow> t \<le> to_timestamp c"
    using assms by (simp add: before_df_def ts_le_def)
  have a: "r \<in> set (after_df c df) \<longleftrightarrow> to_timestamp c < t"
    using assms by (simp add: after_df_def ts_gt_def)
  have tod: "0 \<le> time_of_day t"
    by (simp add: time_of_day_def ns_per_day_def)
  have a': "to_timestamp c < t \<longleftrightarrow> c < date_of t \<or> (date_of t = c \<and> 0 < time_of_day t)"
    using midnight_le_iff [of t c] tod by auto
  show ?thesis
    unfolding a b using midnight_le_iff [of t c] a' mset_partition [of c df] by auto
qed

theorem partition_by_timestamp_witness:
  "ex_df ! 0 \<in> set ex_df \<and> Date (ex_df ! 0) = Some (to_timestamp 19732)
   \<and> ex_df ! 0 \<in> set (before_df ex_cutoff ex_df) \<and> ex_df ! 0 \<notin> set (after_df ex_cutoff ex_df)"
proof -
  have m: "ex_df ! 0 \<in> set ex_df" by (simp add: ex_df_def)
  have d: "Date (ex_df ! 0) = Some (to_timestamp 19732)" by (simp add: ex_df_def mk_row_def)
  have le: "to_timestamp 19732 \<le> to_timestamp ex_cutoff"
    by (simp add: to_timestamp_def ns_per_day_def ex_cutoff_def)
  from partition_by_timestamp [OF m d, of ex_cutoff] le m d show ?thesis by simp
qed

section \<open>Deduplication\<close>

text \<open>
  C4. No two rows of the table that is shown and exported share their combination of channel,
  short campaign name, ad set and ad. Of the rows that passed the filter, \<^verbatim>\<open>final_df\<close> keeps, in
  their order, one row for each combination: the first row with that combination, whose cost
  is therefore the cost reported; every combination that passed the filter is represented.
\<close>

theorem one_row_per_combination:
  "(\<forall>ev \<in> set (process_file to_datetime c uploaded). distinct (map combination (shown_rows ev)))
   \<and> (\<forall>kept. filtered_df c df = Inr kept \<longrightarrow>
        (\<exists>table. final_df c df = Inr table
           \<and> distinct (map combination table)
           \<and> subseq table kept
           \<and> combination ` set table = combination ` set kept
           \<and> (\<forall>o_row \<in> set table.
                 find (\<lambda>p. combination p = combination o_row) kept = Some o_row)
           \<and> (\<forall>p \<in> set kept. \<exists>o_row \<in> set table.
                 find (\<lambda>q. combination q = combination p) kept = Some o_row)))"
proof (intro conjI ballI allI impI)
  fix ev
  assume "ev \<in> set (process_file to_datetime c uploaded)"
  then show "distinct (map combination (shown_rows ev))" by (rule process_file_distinct)
next
  fix kept
  assume k: "filtered_df c df = Inr kept"
  define table where "table = drop_duplicates combination kept"
  have f: "final_df c df = Inr table"
    by (simp add: final_df_def k table_def)
  have d: "distinct (map combination table)"
    by (simp add: table_def drop_duplicates_def ddf_distinct)
  have s: "subseq table kept"
    by (simp add: table_def drop_duplicates_def ddf_subseq)
  have i: "combination ` set table = combination ` set kept"
    by (simp add: table_def drop_duplicates_def ddf_key_image)
  have first: "find (\<lambda>p. combination p = combination o_row) kept = Some o_row"
    if "o_row \<in> set table" for o_row
    using that unfolding table_def drop_duplicates_def by (rule ddf_first)
  have every: "\<exists>o_row \<in> set table. find (\<lambda>q. combination q = combination p) kept = Some o_row"
    if "p \<in> set kept" for p
  proof -
    from that have "combination p \<in> combination ` set table" unfolding i by simp
    then obtain o_row where o: "o_row \<in> set table" and "combination o_row = combination p"
      by auto
    with first [OF o] show ?thesis by auto
  qed
  from f d s i first every
  show "\<exists>table. final_df c df = Inr table
           \<and> distinct (map combination table)
           \<and> subseq table kept
           \<and> combination ` set table = combination ` set kept
           \<and> (\<forall>o_row \<in> set table.
                 find (\<lambda>p. combination p = combination o_row) kept = Some o_row)
           \<and> (\<forall>p \<in> set kept. \<exists>o_row \<in> set table.
                 find (\<lambda>q. combination q = combination p) kept = Some o_row)"
    by blast
qed

theorem one_row_per_combination_witness:
  "filtered_df ex_cutoff ex_df = Inr ex_kept
   \<and> final_df ex_cutoff ex_df = Inr ex_final
   \<and> distinct (map combination ex_final)
   \<and> find (\<lambda>q. combination q = combination (ex_kept ! 1)) ex_kept = Some (ex_final ! 0)
   \<and> out_Cost_USD (ex_kept ! 1) = 35 \<and> out_Cost_USD (ex_final ! 0) = 20"
proof -
  from one_row_per_combination [of ex_to_datetime ex_cutoff ex_frame ex_df, THEN conjunct2,
      rule_format, OF ex_filtered]
  obtain table where t: "final_df ex_cutoff ex_df = Inr table"
    and d: "distinct (map combination table)"
    and f: "\<forall>o_row \<in> set table. find (\<lambda>p. combination p = combination o_row) ex_kept = Some o_row"
    by blast
  from t ex_final_df have e: "table = ex_final" by simp
  have m: "ex_final ! 0 \<in> set ex_final" by (simp add: ex_final_def)
  have c: "combination (ex_final ! 0) = combination (ex_kept ! 1)"
    by (simp add: ex_final_def ex_kept_def mk_out_def combination_def)
  from f m have "find (\<lambda>p. combination p = combination (ex_final ! 0)) ex_kept = Some (ex_final ! 0)"
    unfolding e by blast
  then have "find (\<lambda>q. combination q = combination (ex_kept ! 1)) ex_kept = Some (ex_final ! 0)"
    unfolding c .
  moreover have "out_Cost_USD (ex_kept ! 1) = 35 \<and> out_Cost_USD (ex_final ! 0) = 20"
    by (simp add: ex_final_def ex_kept_def mk_out_def)
  ultimately show ?thesis using ex_filtered ex_final_df d e by simp
qed

section \<open>Annotation\<close>

text \<open>
  C5. When the recent partition has a row, the annotation returns one output row for each of
  its rows, in order. The campaign key of a row is its channel, an underscore and its short
  campaign name; the campaign status is \<^verbatim>\<open>"New"\<close> exactly when that key is in \<^verbatim>\<open>new_campaigns\<close>, the
  ad set status when the ad set, as it is, is in \<^verbatim>\<open>new_adsets\<close>, the ad status when the short ad
  name is in \<^verbatim>\<open>new_ads\<close>, and \<^verbatim>\<open>"Existing"\<close> otherwise. The other cells are copied. Each status
  reads its own key and its own set only: in the example one row is new on the campaign and
  existing on the ad set, another the other way round.
\<close>

theorem statuses_follow_novelty_sets:
  assumes "r \<in> set (after_df c df)"
  shows "\<exists>shown. display_df c df = Inr shown \<and> length shown = length (after_df c df)
     \<and> (\<forall>i < length shown.
          campaign_key (after_df c df ! i) =
            Channel (after_df c df ! i) @ ''_'' @ Campaign_Name_Short (after_df c df ! i)
        \<and> Campaign_Status (shown ! i) =
            (if campaign_key (after_df c df ! i) \<in> new_campaigns c df then ''New'' else ''Existing'')
        \<and> Ad_Set_Status (shown ! i) =
            (if Ad_Set (after_df c df ! i) \<in> new_adsets c df then ''New'' else ''Existing'')
        \<and> Ad_Status (shown ! i) =
            (if Ad_Name_Short (after_df c df ! i) \<in> new_ads c df then ''New'' else ''Existing'')
        \<and> out_Channel (shown ! i) = Channel (after_df c df ! i)
        \<and> Campaign_Short (shown ! i) = Campaign_Name_Short (after_df c df ! i)
        \<and> out_Ad_Set (shown ! i) = Ad_Set (after_df c df ! i)
        \<and> Ad (shown ! i) = Ad_Name_Short (after_df c df ! i)
        \<and> out_Media_Source (shown ! i) = Media_Source (after_df c df ! i)
        \<and> out_Cost_USD (shown ! i) = Cost_USD (after_df c df ! i))
     \<and> display_df ex_cutoff ex_df = Inr ex_shown
     \<and> Campaign_Status (ex_shown ! 3) = ''New'' \<and> Ad_Set_Status (ex_shown ! 3) = ''Existing''
     \<and> Campaign_Status (ex_shown ! 0) = ''Existing'' \<and> Ad_Set_Status (ex_shown ! 0) = ''New''"
proof -
  from assms have "after_df c df \<noteq> []" by auto
  then have d: "display_df c df =
      Inr (map (annotate (new_campaigns c df) (new_adsets c df) (new_ads c df)) (after_df c df))"
    by (rule display_df_returns)
  have ex: "Campaign_Status (ex_shown ! 3) = ''New'' \<and> Ad_Set_Status (ex_shown ! 3) = ''Existing''
     \<and> Campaign_Status (ex_shown ! 0) = ''Existing'' \<and> Ad_Set_Status (ex_shown ! 0) = ''New''"
    by (simp add: ex_shown_def mk_out_def)
  show ?thesis
    unfolding d using ex ex_display
    by (simp add: annotate_def status_def campaign_key_def)
qed

theorem statuses_follow_novelty_sets_witness:
  "ex_df ! 4 \<in> set (after_df ex_cutoff ex_df)
   \<and> display_df ex_cutoff ex_df = Inr ex_shown
   \<and> after_df ex_cutoff ex_df ! 3 = ex_df ! 4
   \<and> campaign_key (ex_df ! 4) = ''Google_Launch''
   \<and> ''Google_Launch'' \<in> new_campaigns ex_cutoff ex_df
   \<and> Campaign_Status (ex_shown ! 3) = ''New''"
proof -
  have m: "ex_df ! 4 \<in> set (after_df ex_cutoff ex_df)"
    unfolding ex_after by (simp add: ex_df_def)
  have a: "after_df ex_cutoff ex_df ! 3 = ex_df ! 4"
    unfolding ex_after by (simp add: ex_df_def)
  have k: "campaign_key (ex_df ! 4) = ''Google_Launch''"
    by (simp add: ex_df_def mk_row_def campaign_key_def)
  have s: "Campaign_Status (ex_shown ! 3) = ''New''"
    by (simp add: ex_shown_def mk_out_def)
  from statuses_follow_novelty_sets [OF m]
  obtain shown where d: "display_df ex_cutoff ex_df = Inr shown"
    and st: "\<forall>i < length shown. Campaign_Status (shown ! i) =
            (if campaign_key (after_df ex_cutoff ex_df ! i) \<in> new_campaigns ex_cutoff ex_df
             then ''New'' else ''Existing'')"
    by blast
  from d ex_display have e: "shown = ex_shown" by simp
  have "3 < length ex_shown" by (simp add: ex_shown_def)
  with st have "Campaign_Status (ex_shown ! 3) =
      (if campaign_key (after_df ex_cutoff ex_df ! 3) \<in> new_campaigns ex_cutoff ex_df
       then ''New'' else ''Existing'')"
    unfolding e by blast
  with s have "''Google_Launch'' \<in> new_campaigns ex_cutoff ex_df"
    unfolding a k by (simp split: if_splits)
  with m a k s ex_display show ?thesis by simp
qed

section \<open>Missing columns\<close>

text \<open>
  C6, as the claim states it, fails: the message of line 54 does not list the columns that are
  missing but all eight required columns, whichever are missing. For a table that lacks only
  the date column it is not the message that names \<^verbatim>\<open>Date\<close> alone.
\<close>

theorem missing_column_message_names_all:
  "missing_columns (columns frame_without_date_column) = [''Date'']
   \<and> process_file ex_to_datetime ex_cutoff frame_without_date_column = [St_error schema_message]
   \<and> schema_message \<noteq> message_naming_missing (columns frame_without_date_column)
   \<and> schema_message =
       ''Uploaded file must contain the following columns: Date, Channel, Media Source, Campaign Name, Campaign Name (Short), Ad Set, Ad Name (Short), Cost (USD)''"
  by (simp add: missing_columns_def frame_without_date_column_def process_file_def
      has_required_columns_def required_columns_def schema_message_def message_naming_missing_def)

text \<open>
  C6, amended. When the table lacks a required column, the script makes one call, \<^verbatim>\<open>st.error\<close>
  with the fixed message that lists the eight required columns; it shows no table, offers no
  download and raises no warning.
\<close>

theorem missing_column_stops_processing:
  assumes "\<exists>col \<in> set required_columns. col \<notin> set (columns uploaded)"
  shows "process_file to_datetime c uploaded = [St_error schema_message]
     \<and> schema_message =
       ''Uploaded file must contain the following columns: '' @
       ''Date, Channel, Media Source, Campaign Name, Campaign Name (Short), Ad Set, Ad Name (Short), Cost (USD)''
     \<and> (\<forall>ev \<in> set (process_file to_datetime c uploaded). shown_rows ev = [] \<and> \<not> is_warning ev)"
proof -
  from assms have "\<not> has_required_columns (columns uploaded)"
    by (auto simp: has_required_columns_def list_all_iff)
  then have p: "process_file to_datetime c uploaded = [St_error schema_message]"
    by (simp add: process_file_def)
  have "schema_message =
       ''Uploaded file must contain the following columns: '' @
       ''Date, Channel, Media Source, Campaign Name, Campaign Name (Short), Ad Set, Ad Name (Short), Cost (USD)''"
    by (simp add: schema_message_def required_columns_def)
  with p show ?thesis by simp
qed

theorem missing_column_stops_processing_witness:
  "''Date'' \<in> set required_columns \<and> ''Date'' \<notin> set (columns frame_without_date_column)
   \<and> process_file ex_to_datetime ex_cutoff frame_without_date_column = [St_error schema_message]"
proof -
  have a: "''Date'' \<in> set required_columns" by (simp add: required_columns_def)
  have b: "''Date'' \<notin> set (columns frame_without_date_column)"
    by (simp add: frame_without_date_column_def)
  from a b have "\<exists>col \<in> set required_columns. col \<notin> set (columns frame_without_date_column)"
    by blast
  from missing_column_stops_processing [OF this, of ex_to_datetime ex_cutoff] a b
  show ?thesis by simp
qed

section \<open>Dates that cannot be parsed\<close>

text \<open>
  C7, as the claim states it, fails in two places. The warning is raised at line 61, after the
  column check: a table with a date that cannot be parsed and without the cost column gets the
  message of line 54 and no warning. And the library parses the date column as a whole: with a
  parser that takes the format from the first cell, a first row that cannot be parsed makes
  the other cells be read one by one, so that the row of 01/20/2024 is recent and its campaign
  new; without that first row the format is year-month-day, the same cell is \<^verbatim>\<open>NaT\<close> and no
  campaign is new. The record that could not be parsed has changed a novelty set.
\<close>

theorem no_warning_without_columns_and_parsing_by_column:
  "ex_to_datetime (map Date (rows frame_without_cost_column)) ! 4 = None
   \<and> process_file ex_to_datetime ex_cutoff frame_without_cost_column = [St_error schema_message]
   \<and> filter is_warning (process_file ex_to_datetime ex_cutoff frame_without_cost_column) = []
   \<and> inferring_to_datetime (map Date mixed_rows) ! 0 = None
   \<and> new_campaigns ex_cutoff (dropna (convert_dates inferring_to_datetime mixed_rows))
        = {''Google_Launch''}
   \<and> new_campaigns ex_cutoff (dropna (convert_dates inferring_to_datetime (tl mixed_rows))) = {}"
proof -
  have p: "process_file ex_to_datetime ex_cutoff frame_without_cost_column = [St_error schema_message]"
    by (simp add: process_file_def frame_without_cost_column_def has_required_columns_def
        required_columns_def)
  have d: "ex_to_datetime (map Date (rows frame_without_cost_column)) ! 4 = None"
    by (simp add: frame_without_cost_column_def ex_to_datetime_def ex_rows_def mk_row_def ex_parse_def)
  have m: "inferring_to_datetime (map Date mixed_rows) = [None, Some (to_timestamp 19732), Some (to_timestamp 19742)]"
    by (simp add: inferring_to_datetime_def mixed_rows_def mk_row_def parse_ymd_def parse_mdy_def
        parse_any_def)
  have t: "inferring_to_datetime (map Date (tl mixed_rows)) = [Some (to_timestamp 19732), None]"
    by (simp add: inferring_to_datetime_def mixed_rows_def mk_row_def parse_ymd_def parse_mdy_def
        parse_any_def)
  have w: "new_campaigns ex_cutoff (dropna (convert_dates inferring_to_datetime mixed_rows))
        = {''Google_Launch''}"
    unfolding convert_dates_def m
    by (simp add: mixed_rows_def mk_row_def set_Date_def dropna_def partition_defs novelty_defs
        ex_cutoff_def)
  have wo: "new_campaigns ex_cutoff (dropna (convert_dates inferring_to_datetime (tl mixed_rows))) = {}"
    unfolding convert_dates_def t
    by (simp add: mixed_rows_def mk_row_def set_Date_def dropna_def partition_defs novelty_defs
        ex_cutoff_def)
  show ?thesis
    unfolding p by (intro conjI refl d w wo) (simp_all add: m)
qed

text \<open>
  C7, amended. For a table that has the required columns: the warning is raised once if some
  cell of the date column was turned into \<^verbatim>\<open>NaT\<close> and not at all otherwise, however many such
  rows there are; a row whose date is \<^verbatim>\<open>NaT\<close> is in neither partition; every row shown or exported
  is the annotation of a row with a parsed date. A record of the uploaded table whose date
  becomes \<^verbatim>\<open>NaT\<close> changes none of the three novelty sets and nothing of what is shown and
  exported, whenever the other cells of the date column are parsed the same with it and
  without it.
\<close>

theorem unparsed_dates_are_dropped_with_one_warning:
  assumes "has_required_columns (columns uploaded)"
  shows "length (filter is_warning (process_file to_datetime c uploaded)) =
           (if \<exists>r \<in> set (convert_dates to_datetime (rows uploaded)). Date r = None then 1 else 0)
     \<and> (\<forall>r \<in> set (convert_dates to_datetime (rows uploaded)). Date r = None \<longrightarrow>
           r \<notin> set (dropna (convert_dates to_datetime (rows uploaded)))
         \<and> r \<notin> set (before_df c (dropna (convert_dates to_datetime (rows uploaded))))
         \<and> r \<notin> set (after_df c (dropna (convert_dates to_datetime (rows uploaded)))))
     \<and> (\<forall>ev \<in> set (process_file to_datetime c uploaded). \<forall>o_row \<in> set (shown_rows ev).
           \<exists>r \<in> set (convert_dates to_datetime (rows uploaded)). Date r \<noteq> None \<and>
             o_row = annotate (new_campaigns c (dropna (convert_dates to_datetime (rows uploaded))))
                       (new_adsets c (dropna (convert_dates to_datetime (rows uploaded))))
                       (new_ads c (dropna (convert_dates to_datetime (rows uploaded)))) r)
     \<and> (\<forall>xs r ys ds1 ds2.
           rows uploaded = xs @ r # ys \<and> length ds1 = length xs
           \<and> to_datetime (map Date (xs @ r # ys)) = ds1 @ None # ds2
           \<and> to_datetime (map Date (xs @ ys)) = ds1 @ ds2 \<longrightarrow>
             new_campaigns c (dropna (convert_dates to_datetime (rows uploaded))) =
             new_campaigns c (dropna (convert_dates to_datetime (xs @ ys)))
           \<and> new_adsets c (dropna (convert_dates to_datetime (rows uploaded))) =
             new_adsets c (dropna (convert_dates to_datetime (xs @ ys)))
           \<and> new_ads c (dropna (convert_dates to_datetime (rows uploaded))) =
             new_ads c (dropna (convert_dates to_datetime (xs @ ys)))
           \<and> filter (\<lambda>ev. \<not> is_warning ev) (process_file to_datetime c uploaded) =
             filter (\<lambda>ev. \<not> is_warning ev)
               (process_file to_datetime c \<lparr>columns = columns uploaded, rows = xs @ ys\<rparr>))"
proof (intro conjI ballI allI impI)
  show "length (filter is_warning (process_file to_datetime c uploaded)) =
           (if \<exists>r \<in> set (convert_dates to_datetime (rows uploaded)). Date r = None then 1 else 0)"
    by (simp add: process_file_warnings [OF assms] isnull_any_def)
next
  fix r
  assume "r \<in> set (convert_dates to_datetime (rows uploaded))" and "Date r = None"
  then show "r \<notin> set (dropna (convert_dates to_datetime (rows uploaded)))"
    by (simp add: dropna_def)
next
  fix r
  assume "r \<in> set (convert_dates to_datetime (rows uploaded))" and "Date r = None"
  then show "r \<notin> set (before_df c (dropna (convert_dates to_datetime (rows uploaded))))"
    by (simp add: partitions_skip_unparsed)
next
  fix r
  assume "r \<in> set (convert_dates to_datetime (rows uploaded))" and "Date r = None"
  then show "r \<notin> set (after_df c (dropna (convert_dates to_datetime (rows uploaded))))"
    by (simp add: partitions_skip_unparsed)
next
  fix ev o_row
  assume "ev \<in> set (process_file to_datetime c uploaded)" and "o_row \<in> set (shown_rows ev)"
  then show "\<exists>r \<in> set (convert_dates to_datetime (rows uploaded)). Date r \<noteq> None \<and>
             o_row = annotate (new_campaigns c (dropna (convert_dates to_datetime (rows uploaded))))
                       (new_adsets c (dropna (convert_dates to_datetime (rows uploaded))))
                       (new_ads c (dropna (convert_dates to_datetime (rows uploaded)))) r"
    by (rule process_file_rows_parsed)
next
  fix xs r ys ds1 ds2
  assume h: "rows uploaded = xs @ r # ys \<and> length ds1 = length xs
           \<and> to_datetime (map Date (xs @ r # ys)) = ds1 @ None # ds2
           \<and> to_datetime (map Date (xs @ ys)) = ds1 @ ds2"
  then have same: "dropna (convert_dates to_datetime (rows uploaded)) =
      dropna (convert_dates to_datetime (xs @ ys))"
    using convert_dates_without_row [of ds1 xs to_datetime r ys ds2] by simp
  show "new_campaigns c (dropna (convert_dates to_datetime (rows uploaded))) =
             new_campaigns c (dropna (convert_dates to_datetime (xs @ ys)))"
    by (simp only: same)
  show "new_adsets c (dropna (convert_dates to_datetime (rows uploaded))) =
             new_adsets c (dropna (convert_dates to_datetime (xs @ ys)))"
    by (simp only: same)
  show "new_ads c (dropna (convert_dates to_datetime (rows uploaded))) =
             new_ads c (dropna (convert_dates to_datetime (xs @ ys)))"
    by (simp only: same)
  have cols: "has_required_columns (columns \<lparr>columns = columns uploaded, rows = xs @ ys\<rparr>)"
    using assms by simp
  show "filter (\<lambda>ev. \<not> is_warning ev) (process_file to_datetime c uploaded) =
             filter (\<lambda>ev. \<not> is_warning ev)
               (process_file to_datetime c \<lparr>columns = columns uploaded, rows = xs @ ys\<rparr>)"
    unfolding process_file_results [OF assms] process_file_results [OF cols]
    by (simp add: same)
qed

theorem unparsed_dates_are_dropped_with_one_warning_witness:
  "has_required_columns (columns ex_frame) \<and> has_required_columns (columns clean_frame)
   \<and> Date (convert_dates ex_to_datetime (rows ex_frame) ! 4) = None
   \<and> length (filter is_warning (process_file ex_to_datetime ex_cutoff ex_frame)) = 1
   \<and> length (filter is_warning (process_file ex_to_datetime ex_cutoff clean_frame)) = 0
   \<and> convert_dates ex_to_datetime (rows ex_frame) ! 4
        \<notin> set (after_df ex_cutoff (dropna (convert_dates ex_to_datetime (rows ex_frame))))
   \<and> rows ex_frame = take 4 ex_rows @ ex_rows ! 4 # drop 5 ex_rows
   \<and> filter (\<lambda>ev. \<not> is_warning ev) (process_file ex_to_datetime ex_cutoff ex_frame) =
     filter (\<lambda>ev. \<not> is_warning ev) (process_file ex_to_datetime ex_cutoff clean_frame)"
proof -
  note w = unparsed_dates_are_dropped_with_one_warning [OF ex_columns, of ex_to_datetime ex_cutoff]
  note v = unparsed_dates_are_dropped_with_one_warning [OF clean_columns, of ex_to_datetime ex_cutoff]
  have "\<exists>r \<in> set (convert_dates ex_to_datetime (rows ex_frame)). Date r = None"
    using ex_unparsed by blast
  with w [THEN conjunct1]
  have one: "length (filter is_warning (process_file ex_to_datetime ex_cutoff ex_frame)) = 1"
    by simp
  have "\<not> (\<exists>r \<in> set (convert_dates ex_to_datetime (rows clean_frame)). Date r = None)"
    unfolding clean_converted by (simp add: ex_df_def mk_row_def)
  with v [THEN conjunct1]
  have none: "length (filter is_warning (process_file ex_to_datetime ex_cutoff clean_frame)) = 0"
    by simp
  from w [THEN conjunct2, THEN conjunct1] ex_unparsed
  have out: "convert_dates ex_to_datetime (rows ex_frame) ! 4
        \<notin> set (after_df ex_cutoff (dropna (convert_dates ex_to_datetime (rows ex_frame))))"
    by blast
  have split: "rows ex_frame = take 4 ex_rows @ ex_rows ! 4 # drop 5 ex_rows"
    by (simp add: ex_frame_def ex_rows_def)
  have len: "length (map ex_parse (map Date (take 4 ex_rows))) = length (take 4 ex_rows)"
    by simp
  have with_row: "ex_to_datetime (map Date (take 4 ex_rows @ ex_rows ! 4 # drop 5 ex_rows)) =
      map ex_parse (map Date (take 4 ex_rows)) @ None # map ex_parse (map Date (drop 5 ex_rows))"
    by (simp add: ex_to_datetime_def ex_rows_def mk_row_def ex_parse_def)
  have without_row: "ex_to_datetime (map Date (take 4 ex_rows @ drop 5 ex_rows)) =
      map ex_parse (map Date (take 4 ex_rows)) @ map ex_parse (map Date (drop 5 ex_rows))"
    by (simp add: ex_to_datetime_def)
  have clean: "\<lparr>columns = columns ex_frame, rows = take 4 ex_rows @ drop 5 ex_rows\<rparr> = clean_frame"
    by (simp add: clean_frame_def ex_frame_def)
  from w [THEN conjunct2, THEN conjunct2, THEN conjunct2, rule_format,
      of "take 4 ex_rows" "ex_rows ! 4" "drop 5 ex_rows"
         "map ex_parse (map Date (take 4 ex_rows))" "map ex_parse (map Date (drop 5 ex_rows))"]
    split len with_row without_row
  have same: "filter (\<lambda>ev. \<not> is_warning ev) (process_file ex_to_datetime ex_cutoff ex_frame) =
     filter (\<lambda>ev. \<not> is_warning ev) (process_file ex_to_datetime ex_cutoff clean_frame)"
    unfolding clean by blast
  have un: "Date (convert_dates ex_to_datetime (rows ex_frame) ! 4) = None"
    using ex_unparsed by simp
  show ?thesis by (intro conjI ex_columns clean_columns un one none out split same)
qed

section \<open>Determinism\<close>



section \<open>Rows that share their combination\<close>

text \<open>
  C9. Two rows of the recent partition that agree on channel, short campaign name, ad set and
  short ad name get the same three statuses. Hence every row that passed the filter has a
  representative in \<^verbatim>\<open>final_df\<close> with the same combination and the same three statuses: dropping
  the duplicates loses no status.
\<close>

theorem same_keys_same_statuses:
  assumes "r \<in> set (after_df c df)" and "s \<in> set (after_df c df)"
    and "Channel r = Channel s" and "Campaign_Name_Short r = Campaign_Name_Short s"
    and "Ad_Set r = Ad_Set s" and "Ad_Name_Short r = Ad_Name_Short s"
  shows "Campaign_Status (annotate (new_campaigns c df) (new_adsets c df) (new_ads c df) r) =
         Campaign_Status (annotate (new_campaigns c df) (new_adsets c df) (new_ads c df) s)
       \<and> Ad_Set_Status (annotate (new_campaigns c df) (new_adsets c df) (new_ads c df) r) =
         Ad_Set_Status (annotate (new_campaigns c df) (new_adsets c df) (new_ads c df) s)
       \<and> Ad_Status (annotate (new_campaigns c df) (new_adsets c df) (new_ads c df) r) =
         Ad_Status (annotate (new_campaigns c df) (new_adsets c df) (new_ads c df) s)
       \<and> (\<exists>kept table. filtered_df c df = Inr kept \<and> final_df c df = Inr table
            \<and> (\<forall>p \<in> set kept. \<exists>o_row \<in> set table.
                  combination o_row = combination p
                \<and> Campaign_Status o_row = Campaign_Status p
                \<and> Ad_Set_Status o_row = Ad_Set_Status p
                \<and> Ad_Status o_row = Ad_Status p))"
proof -
  let ?ann = "annotate (new_campaigns c df) (new_adsets c df) (new_ads c df)"
  from assms(1) have "after_df c df \<noteq> []" by auto
  then have d: "display_df c df = Inr (map ?ann (after_df c df))"
    by (rule display_df_returns)
  define kept where "kept = filter any_new (map ?ann (after_df c df))"
  define table where "table = drop_duplicates combination kept"
  have k: "filtered_df c df = Inr kept"
    by (simp add: filtered_df_def d kept_def)
  have t: "final_df c df = Inr table"
    by (simp add: final_df_def k table_def)
  have rep: "\<exists>o_row \<in> set table. combination o_row = combination p
                \<and> Campaign_Status o_row = Campaign_Status p
                \<and> Ad_Set_Status o_row = Ad_Set_Status p
                \<and> Ad_Status o_row = Ad_Status p"
    if p: "p \<in> set kept" for p
  proof -
    have "combination ` set table = combination ` set kept"
      by (simp add: table_def drop_duplicates_def ddf_key_image)
    with p obtain o_row where o: "o_row \<in> set table" and co: "combination o_row = combination p"
      by (metis imageE imageI)
    have "set table \<subseteq> set kept"
      unfolding table_def drop_duplicates_def by (rule ddf_subset)
    with o have "o_row \<in> set kept" by auto
    then obtain x where "x \<in> set (after_df c df)" and x: "o_row = ?ann x"
      by (auto simp: kept_def)
    from p obtain y where "y \<in> set (after_df c df)" and y: "p = ?ann y"
      by (auto simp: kept_def)
    from co have "Channel x = Channel y \<and> Campaign_Name_Short x = Campaign_Name_Short y
        \<and> Ad_Set x = Ad_Set y \<and> Ad_Name_Short x = Ad_Name_Short y"
      unfolding x y combination_annotate by simp
    then have "Campaign_Status (?ann x) = Campaign_Status (?ann y)
       \<and> Ad_Set_Status (?ann x) = Ad_Set_Status (?ann y)
       \<and> Ad_Status (?ann x) = Ad_Status (?ann y)"
      by (intro annotate_same_keys) simp_all
    with o co show ?thesis unfolding x y by blast
  qed
  from k t rep have "\<exists>kept table. filtered_df c df = Inr kept \<and> final_df c df = Inr table
            \<and> (\<forall>p \<in> set kept. \<exists>o_row \<in> set table.
                  combination o_row = combination p
                \<and> Campaign_Status o_row = Campaign_Status p
                \<and> Ad_Set_Status o_row = Ad_Set_Status p
                \<and> Ad_Status o_row = Ad_Status p)"
    by blast
  with annotate_same_keys [OF assms(3-6)] show ?thesis by blast
qed

theorem same_keys_same_statuses_witness:
  "ex_df ! 1 \<in> set (after_df ex_cutoff ex_df) \<and> ex_df ! 2 \<in> set (after_df ex_cutoff ex_df)
   \<and> Channel (ex_df ! 1) = Channel (ex_df ! 2)
   \<and> Campaign_Name_Short (ex_df ! 1) = Campaign_Name_Short (ex_df ! 2)
   \<and> Ad_Set (ex_df ! 1) = Ad_Set (ex_df ! 2)
   \<and> Ad_Name_Short (ex_df ! 1) = Ad_Name_Short (ex_df ! 2)
   \<and> Cost_USD (ex_df ! 1) \<noteq> Cost_USD (ex_df ! 2)
   \<and> Ad_Set_Status (annotate (new_campaigns ex_cutoff ex_df) (new_adsets ex_cutoff ex_df)
        (new_ads ex_cutoff ex_df) (ex_df ! 1)) =
      Ad_Set_Status (annotate (new_campaigns ex_cutoff ex_df) (new_adsets ex_cutoff ex_df)
        (new_ads ex_cutoff ex_df) (ex_df ! 2))"
proof -
  have m1: "ex_df ! 1 \<in> set (after_df ex_cutoff ex_df)"
    unfolding ex_after by (simp add: ex_df_def)
  have m2: "ex_df ! 2 \<in> set (after_df ex_cutoff ex_df)"
    unfolding ex_after by (simp add: ex_df_def)
  have k1: "Channel (ex_df ! 1) = Channel (ex_df ! 2)"
    and k2: "Campaign_Name_Short (ex_df ! 1) = Campaign_Name_Short (ex_df ! 2)"
    and k3: "Ad_Set (ex_df ! 1) = Ad_Set (ex_df ! 2)"
    and k4: "Ad_Name_Short (ex_df ! 1) = Ad_Name_Short (ex_df ! 2)"
    and k5: "Cost_USD (ex_df ! 1) \<noteq> Cost_USD (ex_df ! 2)"
    by (simp_all add: ex_df_def mk_row_def)
  from same_keys_same_statuses [OF m1 m2 k1 k2 k3 k4] m1 m2 k1 k2 k3 k4 k5
  show ?thesis by simp
qed

section \<open>Cost\<close>

text \<open>
  C10. For two tables that are the same except for the cells of the cost column, the script
  makes the same Streamlit calls, and the tables it shows and exports have the same rows in
  the same order and agree on every column but the cost; the three novelty sets are the same.
\<close>

theorem cost_does_not_steer_the_result:
  assumes "same_except_cost a b"
  shows "map event_without_cost (process_file to_datetime c a) =
         map event_without_cost (process_file to_datetime c b)
     \<and> new_campaigns c (dropna (convert_dates to_datetime (rows a))) =
       new_campaigns c (dropna (convert_dates to_datetime (rows b)))
     \<and> new_adsets c (dropna (convert_dates to_datetime (rows a))) =
       new_adsets c (dropna (convert_dates to_datetime (rows b)))
     \<and> new_ads c (dropna (convert_dates to_datetime (rows a))) =
       new_ads c (dropna (convert_dates to_datetime (rows b)))"
proof -
  from assms have cols: "columns a = columns b"
    and rs: "map without_cost (rows a) = map without_cost (rows b)"
    by (simp_all add: same_except_cost_def same_except_cost_rows)
  have "map event_without_cost (process_file to_datetime c a) =
      process_file to_datetime c \<lparr>columns = columns a, rows = map without_cost (rows a)\<rparr>"
    by (simp only: process_file_without_cost)
  also have "\<dots> = process_file to_datetime c \<lparr>columns = columns b, rows = map without_cost (rows b)\<rparr>"
    by (simp only: cols rs)
  also have "\<dots> = map event_without_cost (process_file to_datetime c b)"
    by (simp only: process_file_without_cost)
  finally have events: "map event_without_cost (process_file to_datetime c a) =
         map event_without_cost (process_file to_datetime c b)" .
  have df: "map without_cost (dropna (convert_dates to_datetime (rows a))) =
      map without_cost (dropna (convert_dates to_datetime (rows b)))"
    using rs by (simp only: dropna_without_cost [symmetric] convert_dates_without_cost [symmetric])
  have nc: "new_campaigns c (dropna (convert_dates to_datetime (rows a))) =
       new_campaigns c (dropna (convert_dates to_datetime (rows b)))"
    using arg_cong [OF df, of "new_campaigns c"] by (simp only: novelty_without_cost)
  have ns: "new_adsets c (dropna (convert_dates to_datetime (rows a))) =
       new_adsets c (dropna (convert_dates to_datetime (rows b)))"
    using arg_cong [OF df, of "new_adsets c"] by (simp only: novelty_without_cost)
  have na: "new_ads c (dropna (convert_dates to_datetime (rows a))) =
       new_ads c (dropna (convert_dates to_datetime (rows b)))"
    using arg_cong [OF df, of "new_ads c"] by (simp only: novelty_without_cost)
  show ?thesis by (intro conjI events nc ns na)
qed

theorem cost_does_not_steer_the_result_witness:
  "same_except_cost ex_frame recosted_frame
   \<and> Cost_USD (rows ex_frame ! 1) = 20 \<and> Cost_USD (rows recosted_frame ! 1) = 61
   \<and> map event_without_cost (process_file ex_to_datetime ex_cutoff ex_frame) =
     map event_without_cost (process_file ex_to_datetime ex_cutoff recosted_frame)"
proof -
  have s: "same_except_cost ex_frame recosted_frame"
    by (simp add: same_except_cost_def same_except_cost_row_def ex_frame_def recosted_frame_def
        ex_rows_def mk_row_def)
  have d: "Cost_USD (rows ex_frame ! 1) = 20 \<and> Cost_USD (rows recosted_frame ! 1) = 61"
    by (simp add: ex_frame_def recosted_frame_def ex_rows_def mk_row_def)
  from cost_does_not_steer_the_result [OF s, of ex_to_datetime ex_cutoff] s d
  show ?thesis by simp
qed

end
